theory Spec2Isabelle
  imports Main "HOL-Library.Sublist"
begin

section \<open>Python strings\<close>

text \<open>
  A Python \<open>str\<close> is modelled as a \<open>string\<close>, one \<open>char\<close> per code point; the
  model therefore covers the code points below 256. On that range \<open>str.isspace\<close>
  (used by \<open>strip()\<close>, \<open>split()\<close> and the regular expression class \<open>\s\<close>) holds for
  U+0009..U+000D, U+001C..U+0020, U+0085 and U+00A0, the decimal digits of \<open>\d\<close>
  are \<open>0\<close>..\<open>9\<close>, and \<open>str.lower\<close> moves \<open>A\<close>..\<open>Z\<close> and U+00C0..U+00DE (without
  U+00D7) up by 32.
\<close>

definition isspace :: "char \<Rightarrow> bool" where
  "isspace c =
     (let n = (of_char c :: nat)
      in (9 \<le> n \<and> n \<le> 13) \<or> (28 \<le> n \<and> n \<le> 32) \<or> n = 133 \<or> n = 160)"

definition isdigit :: "char \<Rightarrow> bool" where
  "isdigit c = (let n = (of_char c :: nat) in 48 \<le> n \<and> n \<le> 57)"

definition lower_char :: "char \<Rightarrow> char" where
  "lower_char c =
     (let n = (of_char c :: nat)
      in if (65 \<le> n \<and> n \<le> 90) \<or> (192 \<le> n \<and> n \<le> 222 \<and> n \<noteq> 215)
         then char_of (n + 32) else c)"

definition lower :: "string \<Rightarrow> string" where
  "lower s = map lower_char s"

text \<open>\<open>s.strip()\<close>: whitespace removed at both ends.\<close>

definition strip :: "string \<Rightarrow> string" where
  "strip s = rev (dropWhile isspace (rev (dropWhile isspace s)))"

text \<open>\<open>k in s\<close> on strings: \<open>k\<close> occurs in \<open>s\<close> as a contiguous substring.\<close>

fun contains :: "string \<Rightarrow> string \<Rightarrow> bool" where
  "contains k [] = (k = [])"
| "contains k (c # cs) = (prefix k (c # cs) \<or> contains k cs)"

text \<open>\<open>s.startswith(p)\<close>.\<close>

definition startswith :: "string \<Rightarrow> string \<Rightarrow> bool" where
  "startswith s p = prefix p s"

text \<open>
  \<open>s.split()\<close>: the maximal runs of non-whitespace characters, in order. The first
  argument of \<open>split_from\<close> is the token being read, reversed.
\<close>

fun split_from :: "string \<Rightarrow> string \<Rightarrow> string list" where
  "split_from cur [] = (if cur = [] then [] else [rev cur])"
| "split_from cur (c # cs) =
     (if isspace c
      then (if cur = [] then split_from [] cs else rev cur # split_from [] cs)
      else split_from (c # cur) cs)"

definition split :: "string \<Rightarrow> string list" where
  "split s = split_from [] s"

text \<open>\<open>sep.join(parts)\<close>.\<close>

fun join :: "string \<Rightarrow> string list \<Rightarrow> string" where
  "join sep [] = []"
| "join sep [p] = p"
| "join sep (p # q # ps) = p @ sep @ join sep (q # ps)"

section \<open>The regular expressions of the metric table\<close>

text \<open>
  The two patterns of \<open>FINANCIAL_METRICS\<close> are sequences of four kinds of item: a
  literal character, a character class under \<open>+\<close>, a character class under \<open>*\<close>, and
  an optional non-capturing group of alternative words. \<open>match_items\<close> is the
  backtracking matcher of \<open>re\<close> on that fragment, under \<open>re.IGNORECASE\<close>: repetition is
  greedy and gives characters back one at a time, alternatives are tried in the
  order written, the optional group is tried before it is skipped. Its result is
  the length of the match that starts at the head of the string.
\<close>

datatype atom = Digit | Space | Ch char

datatype item = Lit char | Plus "atom list" | Star "atom list" | OptAlt "string list"

definition ci_eq :: "char \<Rightarrow> char \<Rightarrow> bool" where
  "ci_eq x c = (lower_char x = lower_char c)"

fun atom_matches :: "atom \<Rightarrow> char \<Rightarrow> bool" where
  "atom_matches Digit c = isdigit c"
| "atom_matches Space c = isspace c"
| "atom_matches (Ch x) c = ci_eq x c"

definition in_class :: "atom list \<Rightarrow> char \<Rightarrow> bool" where
  "in_class cl c = list_ex (\<lambda>a. atom_matches a c) cl"

fun ci_prefix :: "string \<Rightarrow> string \<Rightarrow> bool" where
  "ci_prefix [] s = True"
| "ci_prefix (x # xs) [] = False"
| "ci_prefix (x # xs) (c # cs) = (ci_eq x c \<and> ci_prefix xs cs)"

fun try_each :: "('a \<Rightarrow> nat option) \<Rightarrow> 'a list \<Rightarrow> nat option" where
  "try_each f [] = None"
| "try_each f (x # xs) = (case f x of Some k \<Rightarrow> Some k | None \<Rightarrow> try_each f xs)"

fun match_items :: "item list \<Rightarrow> string \<Rightarrow> nat option" where
  "match_items [] s = Some 0"
| "match_items (Lit x # r) s =
     (case s of
        [] \<Rightarrow> None
      | c # cs \<Rightarrow> if ci_eq x c then map_option Suc (match_items r cs) else None)"
| "match_items (Plus cl # r) s =
     (let n = length (takeWhile (in_class cl) s)
      in try_each (\<lambda>k. map_option ((+) k) (match_items r (drop k s))) (rev [1 ..< Suc n]))"
| "match_items (Star cl # r) s =
     (let n = length (takeWhile (in_class cl) s)
      in try_each (\<lambda>k. map_option ((+) k) (match_items r (drop k s))) (rev [0 ..< Suc n]))"
| "match_items (OptAlt ws # r) s =
     (case try_each
             (\<lambda>w. if ci_prefix w s
                  then map_option ((+) (length w)) (match_items r (drop (length w) s))
                  else None) ws of
        Some k \<Rightarrow> Some k
      | None \<Rightarrow> match_items r s)"

text \<open>
  \<open>re.findall(pattern, s, re.IGNORECASE)\<close> for a pattern without capturing groups:
  the matched substrings, scanning from the left; after a match the scan resumes
  at its end, otherwise one character further. Both patterns of the table begin
  with a literal, so neither matches the empty string; for completeness an empty
  match is recorded and the scan moves on by one character.
\<close>

fun findall :: "item list \<Rightarrow> string \<Rightarrow> string list" where
  "findall p [] = (case match_items p [] of Some k \<Rightarrow> [[]] | None \<Rightarrow> [])"
| "findall p (c # cs) =
     (case match_items p (c # cs) of
        None \<Rightarrow> findall p cs
      | Some 0 \<Rightarrow> [] # findall p cs
      | Some (Suc k) \<Rightarrow> take (Suc k) (c # cs) # findall p (drop k cs))"

section \<open>The parse of the sentence and entity model\<close>

text \<open>
  The fields of spaCy's objects that the pipeline reads: \<open>ent.text\<close> and
  \<open>ent.label_\<close> of an entity, \<open>sent.text\<close> and \<open>sent.ents\<close> of a sentence, \<open>doc.sents\<close>
  and \<open>doc.ents\<close> of a parsed document.
\<close>

record entity =
  ent_text :: string
  ent_label :: string

record sentence =
  sent_text :: string
  sent_ents :: "entity list"

record doc =
  doc_sents :: "sentence list"
  doc_ents :: "entity list"

section \<open>The metric table\<close>

record metric_details =
  trigger_keywords :: "string list"
  pattern :: "item list"

text \<open>\<open>\$[\d\.,]+\s*(?:billion|million|trillion)?\<close>\<close>

definition amount_pattern :: "item list" where
  "amount_pattern =
     [Lit CHR ''$'', Plus [Digit, Ch CHR ''.'', Ch CHR '',''], Star [Space],
      OptAlt [''billion'', ''million'', ''trillion'']]"

text \<open>\<open>\$[ \d\.,]+\<close>\<close>

definition per_share_pattern :: "item list" where
  "per_share_pattern = [Lit CHR ''$'', Plus [Ch CHR '' '', Digit, Ch CHR ''.'', Ch CHR '','']]"

text \<open>The dictionary in its insertion order, which is the order \<open>items()\<close> iterates in.\<close>

definition FINANCIAL_METRICS :: "(string \<times> metric_details) list" where
  "FINANCIAL_METRICS =
     [(''Revenue'',
         \<lparr>trigger_keywords = [''revenue'', ''sales''], pattern = amount_pattern\<rparr>),
      (''Net Income'',
         \<lparr>trigger_keywords = [''net income''], pattern = amount_pattern\<rparr>),
      (''Operating Income'',
         \<lparr>trigger_keywords = [''operating income''], pattern = amount_pattern\<rparr>),
      (''Earnings Per Share'',
         \<lparr>trigger_keywords = [''earnings per share'', ''diluted earnings per share''],
          pattern = per_share_pattern\<rparr>)]"

section \<open>The contextual linker\<close>

record fact =
  Company :: string
  Metric :: string
  Value :: string

datatype error = AttributeError | ModelError

text \<open>\<open>[ent.text for ent in sent.ents if ent.label_ == 'ORG']\<close>\<close>

definition sent_orgs :: "sentence \<Rightarrow> string list" where
  "sent_orgs sent = map ent_text (filter (\<lambda>ent. ent_label ent = ''ORG'') (sent_ents sent))"

definition known_names :: "string list" where
  "known_names = [''Microsoft'', ''Apple'', ''Google'', ''Amazon'']"

definition known_orgs :: "string list \<Rightarrow> string list" where
  "known_orgs orgs = filter (\<lambda>org. list_ex (\<lambda>k. contains k org) known_names) orgs"

text \<open>
  Lines 100 to 102: the organisation carried into the rest of the loop body. Both
  reads of index 0 are of a list that the enclosing test has found non-empty.
\<close>

definition update_org :: "string option \<Rightarrow> sentence \<Rightarrow> string option" where
  "update_org current_org sent =
     (if sent_orgs sent \<noteq> []
      then (if known_orgs (sent_orgs sent) \<noteq> []
            then Some (hd (known_orgs (sent_orgs sent)))
            else Some (hd (sent_orgs sent)))
      else current_org)"

text \<open>\<open>not current_org\<close>: true of \<open>None\<close> and of the empty string.\<close>

definition falsy :: "string option \<Rightarrow> bool" where
  "falsy current_org = (case current_org of None \<Rightarrow> True | Some org \<Rightarrow> org = [])"

text \<open>\<open>any(keyword in sent.text.lower() for keyword in details['keywords'])\<close>\<close>

definition triggered :: "metric_details \<Rightarrow> sentence \<Rightarrow> bool" where
  "triggered details sent = list_ex (\<lambda>keyword. contains keyword (lower (sent_text sent))) (trigger_keywords details)"

text \<open>Lines 109 to 111: the facts one metric appends for one sentence.\<close>

definition metric_facts :: "string \<Rightarrow> string \<Rightarrow> metric_details \<Rightarrow> sentence \<Rightarrow> fact list" where
  "metric_facts org metric_name details sent =
     map (\<lambda>v. \<lparr>Company = org, Metric = metric_name, Value = strip v\<rparr>)
         (filter (\<lambda>v. length v > 2) (findall (pattern details) (sent_text sent)))"

text \<open>Lines 107 to 111: the facts one sentence appends, metric after metric.\<close>

definition sent_facts :: "string \<Rightarrow> sentence \<Rightarrow> fact list" where
  "sent_facts org sent =
     concat (map (\<lambda>(metric_name, details).
                    if triggered details sent then metric_facts org metric_name details sent
                    else [])
                 FINANCIAL_METRICS)"

text \<open>
  The loop of lines 97 to 111 over the sentences that remain, from the facts
  appended so far and the organisation carried over; it returns both.
\<close>

fun linker_loop :: "fact list \<Rightarrow> string option \<Rightarrow> sentence list \<Rightarrow> fact list \<times> string option" where
  "linker_loop facts current_org [] = (facts, current_org)"
| "linker_loop facts current_org (sent # sents) =
     (let current_org = update_org current_org sent
      in if falsy current_org then linker_loop facts current_org sents
         else linker_loop (facts @ sent_facts (the current_org) sent) current_org sents)"

text \<open>
  \<open>DataFrame.drop_duplicates()\<close> with its default \<open>keep='first'\<close>: a row equal in
  every column to an earlier row is dropped, the others keep their order.
\<close>

fun drop_duplicates_from :: "'a list \<Rightarrow> 'a list \<Rightarrow> 'a list" where
  "drop_duplicates_from seen [] = []"
| "drop_duplicates_from seen (x # xs) =
     (if x \<in> set seen then drop_duplicates_from seen xs
      else x # drop_duplicates_from (x # seen) xs)"

definition drop_duplicates :: "'a list \<Rightarrow> 'a list" where
  "drop_duplicates xs = drop_duplicates_from [] xs"

text \<open>The facts appended by the whole loop, before line 113.\<close>

definition candidate_facts :: "sentence list \<Rightarrow> fact list" where
  "candidate_facts sents = fst (linker_loop [] None sents)"

text \<open>
  \<open>_heuristic_contextual_linker\<close>. The argument is \<open>None\<close> when the caller has no
  parse; reading \<open>doc.sents\<close> then raises \<open>AttributeError\<close>. The data frame is the
  list of its rows.
\<close>

definition heuristic_contextual_linker :: "doc option \<Rightarrow> error + fact list" where
  "heuristic_contextual_linker d =
     (case d of
        None \<Rightarrow> Inl AttributeError
      | Some doc \<Rightarrow>
          (let facts = candidate_facts (doc_sents doc)
           in if facts = [] then Inr [] else Inr (drop_duplicates facts)))"

text \<open>The organisation in scope once the given sentences have been read.\<close>

definition org_after :: "sentence list \<Rightarrow> string option" where
  "org_after sents = snd (linker_loop [] None sents)"

section \<open>The analysis stages\<close>

text \<open>
  \<open>Counter(xs)\<close>: a dictionary from each distinct element to its number of
  occurrences, the keys in the order of their first occurrence.
\<close>

fun counter_add :: "(string \<times> nat) list \<Rightarrow> string \<Rightarrow> (string \<times> nat) list" where
  "counter_add [] x = [(x, 1)]"
| "counter_add ((k, n) # kvs) x =
     (if k = x then (k, Suc n) # kvs else (k, n) # counter_add kvs x)"

definition Counter :: "string list \<Rightarrow> (string \<times> nat) list" where
  "Counter xs = foldl counter_add [] xs"

text \<open>
  \<open>most_common(n)\<close>: the \<open>n\<close> entries of largest count, largest first; entries of
  equal count stay in the order of first occurrence (a stable sort).
\<close>

definition most_common :: "nat \<Rightarrow> (string \<times> nat) list \<Rightarrow> (string \<times> nat) list" where
  "most_common n items = take n (sort_key (\<lambda>(item, count). - int count) items)"

text \<open>\<open>item.replace("\n", " ")\<close>\<close>

definition replace_newline :: "string \<Rightarrow> string" where
  "replace_newline s = map (\<lambda>c. if c = CHR 0x0A then CHR '' '' else c) s"

text \<open>\<open>[ent.text.strip() for ent in doc.ents if ent.label_ == label]\<close>\<close>

definition label_entities :: "doc \<Rightarrow> string \<Rightarrow> string list" where
  "label_entities doc label =
     map (\<lambda>ent. strip (ent_text ent)) (filter (\<lambda>ent. ent_label ent = label) (doc_ents doc))"

text \<open>Lines 157 to 167: the dictionary \<open>entities\<close>, as its items in insertion order.\<close>

definition entities_stage :: "doc option \<Rightarrow> (string \<times> string list) list" where
  "entities_stage d =
     (case d of
        Some doc \<Rightarrow>
          map (\<lambda>label.
                 if label_entities doc label \<noteq> []
                 then (label, map (\<lambda>(item, count). replace_newline item)
                                  (most_common 5 (Counter (label_entities doc label))))
                 else (label, []))
              [''ORG'', ''PERSON'', ''GPE'']
      | None \<Rightarrow> [(''ORG'', []), (''PERSON'', []), (''GPE'', [])])"

text \<open>
  The sentence and entity model is \<open>None\<close> when it could not be loaded; a loaded
  model either returns a parse or raises. The classifier takes the sample text and
  either returns a label or raises.
\<close>

type_synonym nlp_model = "(string \<Rightarrow> error + doc) option"

type_synonym classifier_model = "string \<Rightarrow> error + string"

text \<open>
  Lines 133 to 152. The \<open>RuntimeError\<close> raised when the model is \<open>None\<close> and anything
  the model raises are caught by the same handler.
\<close>

definition summary_stage :: "nlp_model \<Rightarrow> string \<Rightarrow> string" where
  "summary_stage nlp text =
     (let text_clean = strip text;
          text_to_summarize = take 40000 text_clean
      in case nlp of
           None \<Rightarrow> ''Could not generate summary.''
         | Some parse \<Rightarrow>
             (case parse text_to_summarize of
                Inl e \<Rightarrow> ''Could not generate summary.''
              | Inr doc \<Rightarrow>
                  (let summary_sentences = map (\<lambda>sent. strip (sent_text sent)) (take 3 (doc_sents doc))
                   in if summary_sentences \<noteq> [] then join '' '' summary_sentences
                      else take 300 text_to_summarize @ ''...'')))"

text \<open>Lines 170 to 175.\<close>

definition text_for_classification :: "string \<Rightarrow> string" where
  "text_for_classification text = join '' '' (take 200 (split text))"

definition classify_stage :: "classifier_model \<Rightarrow> string \<Rightarrow> string" where
  "classify_stage classifier text =
     (case classifier (text_for_classification text) of
        Inl e \<Rightarrow> ''Classification Failed''
      | Inr label \<Rightarrow> label)"

section \<open>The orchestrator\<close>

text \<open>
  The dictionary \<open>run_analysis\<close> returns. The key \<open>raw_text\<close> exists only in the
  report of the guard. The argument \<open>text\<close> is \<open>None\<close> for Python's \<open>None\<close>.
\<close>

record report =
  summary :: string
  entities :: "(string \<times> string list) list"
  article_type :: string
  financial_facts :: "fact list"
  raw_text :: "string option"

text \<open>Line 155, which no handler encloses.\<close>

definition parse_stage :: "nlp_model \<Rightarrow> string \<Rightarrow> error + doc option" where
  "parse_stage nlp text =
     (case nlp of
        None \<Rightarrow> Inr None
      | Some parse \<Rightarrow>
          (case parse (take 50000 text) of Inl e \<Rightarrow> Inl e | Inr doc \<Rightarrow> Inr (Some doc)))"

text \<open>\<open>not text or text.startswith("Error:") or len(text) < 150\<close>\<close>

definition guard :: "string option \<Rightarrow> bool" where
  "guard text =
     (case text of
        None \<Rightarrow> True
      | Some t \<Rightarrow> t = [] \<or> startswith t ''Error:'' \<or> length t < 150)"

definition run_analysis :: "nlp_model \<Rightarrow> classifier_model \<Rightarrow> string option \<Rightarrow> error + report" where
  "run_analysis nlp classifier text =
     (if guard text
      then Inr \<lparr>summary = ''N/A - Could not process article text.'',
                entities = [],
                article_type = ''N/A'',
                financial_facts = [],
                raw_text = Some (case text of
                                   None \<Rightarrow> ''N/A''
                                 | Some t \<Rightarrow> if t \<noteq> [] then take 500 t @ ''...'' else ''N/A'')\<rparr>
      else
        (let t = the text;
             summary = summary_stage nlp t
         in case parse_stage nlp t of
              Inl e \<Rightarrow> Inl e
            | Inr d \<Rightarrow>
                (let entities = entities_stage d;
                     article_type = classify_stage classifier t
                 in case heuristic_contextual_linker d of
                      Inl e \<Rightarrow> Inl e
                    | Inr financial_facts_df \<Rightarrow>
                        Inr \<lparr>summary = summary,
                             entities = entities,
                             article_type = article_type,
                             financial_facts = financial_facts_df,
                             raw_text = None\<rparr>)))"

section \<open>Notions used to state the properties\<close>

text \<open>The position at which \<open>x\<close> first occurs in \<open>xs\<close> (the length of \<open>xs\<close> when it does not).\<close>

definition first_index :: "'a list \<Rightarrow> 'a \<Rightarrow> nat" where
  "first_index xs x = length (takeWhile (\<lambda>y. y \<noteq> x) xs)"

section \<open>Example inputs\<close>

text \<open>The two sentences of the specification's example, with the entities the model tags.\<close>

definition microsoft_sents :: "sentence list" where
  "microsoft_sents =
     [\<lparr>sent_text = ''Microsoft reported revenue of $56.5 billion.'',
       sent_ents = [\<lparr>ent_text = ''Microsoft'', ent_label = ''ORG''\<rparr>]\<rparr>,
      \<lparr>sent_text = ''It also grew.'', sent_ents = []\<rparr>]"

text \<open>One sentence said twice: both occurrences yield the same candidate.\<close>

definition repeated_sents :: "sentence list" where
  "repeated_sents =
     [\<lparr>sent_text = ''Apple revenue was $10 billion.'',
       sent_ents = [\<lparr>ent_text = ''Apple'', ent_label = ''ORG''\<rparr>]\<rparr>,
      \<lparr>sent_text = ''Apple revenue was $10 billion.'',
       sent_ents = [\<lparr>ent_text = ''Apple'', ent_label = ''ORG''\<rparr>]\<rparr>]"

text \<open>A sentence naming two organisations, the second of them on the allow-list.\<close>

definition two_org_sent :: sentence where
  "two_org_sent =
     \<lparr>sent_text = ''Acme Corp sued Apple Inc.'',
      sent_ents = [\<lparr>ent_text = ''Acme Corp'', ent_label = ''ORG''\<rparr>,
                   \<lparr>ent_text = ''Apple Inc'', ent_label = ''ORG''\<rparr>]\<rparr>"

text \<open>A sentence with metric words and an amount, but no organisation.\<close>

definition no_org_sent :: sentence where
  "no_org_sent =
     \<lparr>sent_text = ''Revenue was $10 billion.'',
      sent_ents = [\<lparr>ent_text = ''Tim Cook'', ent_label = ''PERSON''\<rparr>]\<rparr>"


text \<open>A one-digit amount followed by a space and an ordinary word.\<close>

definition small_amount_sent :: sentence where
  "small_amount_sent =
     \<lparr>sent_text = ''Apple revenue was $5 today.'',
      sent_ents = [\<lparr>ent_text = ''Apple'', ent_label = ''ORG''\<rparr>]\<rparr>"

text \<open>One organisation mentioned once across a line break and once on one line.\<close>

definition line_break_doc :: doc where
  "line_break_doc =
     \<lparr>doc_sents = [],
      doc_ents = [\<lparr>ent_text = [CHR ''G'', CHR ''S'', CHR 0x0A, CHR ''I'', CHR ''n'', CHR ''c''],
                   ent_label = ''ORG''\<rparr>,
                  \<lparr>ent_text = ''GS Inc'', ent_label = ''ORG''\<rparr>]\<rparr>"

text \<open>A model that finds no sentence, a classifier that raises, one that answers.\<close>

definition no_sentence_model :: "string \<Rightarrow> error + doc" where
  "no_sentence_model text = Inr \<lparr>doc_sents = [], doc_ents = []\<rparr>"

definition failing_classifier :: classifier_model where
  "failing_classifier text = Inl ModelError"

definition business_classifier :: classifier_model where
  "business_classifier text = Inr ''Business''"

definition failing_model :: "string \<Rightarrow> error + doc" where
  "failing_model text = Inl ModelError"

text \<open>A text of 630 characters and 210 words.\<close>

definition long_text :: string where
  "long_text = concat (replicate 210 ''ab '')"

section \<open>The linker loop\<close>



lemma contains_sublist: "contains k s = sublist k s"
  by (induction s) (simp_all add: sublist_Cons_right)


lemma linker_loop_append:
  "linker_loop facts cur (xs @ ys) =
     linker_loop (fst (linker_loop facts cur xs)) (snd (linker_loop facts cur xs)) ys"
  by (induction xs arbitrary: facts cur) (simp_all add: Let_def)

lemma org_after_snoc: "org_after (ss @ [s]) = update_org (org_after ss) s"
  by (simp add: org_after_def linker_loop_append Let_def)


lemma no_orgs_loop:
  "\<forall>s \<in> set ss. sent_orgs s = [] \<Longrightarrow> linker_loop facts None ss = (facts, None)"
  by (induction ss arbitrary: facts) (simp_all add: update_org_def falsy_def Let_def)


lemma set_drop_duplicates_from: "set (drop_duplicates_from seen xs) = set xs - set seen"
  by (induction xs arbitrary: seen) auto

lemma distinct_drop_duplicates_from: "distinct (drop_duplicates_from seen xs)"
  by (induction xs arbitrary: seen) (auto simp: set_drop_duplicates_from)

lemma first_index_Cons:
  "first_index (x # xs) a = (if a = x then 0 else Suc (first_index xs a))"
  by (auto simp: first_index_def)

lemma first_order_drop_duplicates_from:
  "sorted_wrt (\<lambda>a b. first_index xs a < first_index xs b) (drop_duplicates_from seen xs)"
proof (induction xs arbitrary: seen)
  case Nil
  show ?case by simp
next
  case (Cons x xs)
  have shift: "sorted_wrt (\<lambda>a b. first_index (x # xs) a < first_index (x # xs) b)
                 (drop_duplicates_from seen' xs)" if "x \<in> set seen'" for seen'
  proof (rule sorted_wrt_mono_rel [OF _ Cons.IH [of seen']])
    fix a b
    assume "a \<in> set (drop_duplicates_from seen' xs)" "b \<in> set (drop_duplicates_from seen' xs)"
       and lt: "first_index xs a < first_index xs b"
    then have "a \<noteq> x" "b \<noteq> x" using that by (auto simp: set_drop_duplicates_from)
    then show "first_index (x # xs) a < first_index (x # xs) b"
      using lt by (simp add: first_index_Cons)
  qed
  show ?case
  proof (cases "x \<in> set seen")
    case True
    then show ?thesis using shift [of seen] by simp
  next
    case False
    have "\<forall>b \<in> set (drop_duplicates_from (x # seen) xs). first_index (x # xs) x < first_index (x # xs) b"
      by (auto simp: set_drop_duplicates_from first_index_Cons)
    then show ?thesis using False shift [of "x # seen"] by simp
  qed
qed

lemma drop_duplicates_Nil_iff: "drop_duplicates xs = [] \<longleftrightarrow> xs = []"
  by (cases xs) (simp_all add: drop_duplicates_def)

lemma linker_returns:
  "heuristic_contextual_linker (Some d) = Inr (drop_duplicates (candidate_facts (doc_sents d)))"
  by (simp add: heuristic_contextual_linker_def Let_def drop_duplicates_def)

text \<open>
  Claim C6. The linker returns a list, never an error, for every parse. In it no
  fact occurs twice, its facts are exactly the candidates the loop produced, and
  they stand in the order in which each first occurs among the candidates; the
  list is empty exactly when there was no candidate.
\<close>

theorem linker_output_unique_first_occurrence:
  "\<exists>fs. heuristic_contextual_linker (Some d) = Inr fs
        \<and> distinct fs
        \<and> set fs = set (candidate_facts (doc_sents d))
        \<and> sorted_wrt (\<lambda>a b. first_index (candidate_facts (doc_sents d)) a
                              < first_index (candidate_facts (doc_sents d)) b) fs
        \<and> (fs = []) = (candidate_facts (doc_sents d) = [])"
proof -
  let ?cands = "candidate_facts (doc_sents d)"
  have "distinct (drop_duplicates ?cands)"
    by (simp add: drop_duplicates_def distinct_drop_duplicates_from)
  moreover have "set (drop_duplicates ?cands) = set ?cands"
    by (simp add: drop_duplicates_def set_drop_duplicates_from)
  moreover have "sorted_wrt (\<lambda>a b. first_index ?cands a < first_index ?cands b)
                   (drop_duplicates ?cands)"
    unfolding drop_duplicates_def by (rule first_order_drop_duplicates_from)
  moreover have "(drop_duplicates ?cands = []) = (?cands = [])"
    by (rule drop_duplicates_Nil_iff)
  ultimately show ?thesis
    using linker_returns [of d] by blast
qed


lemma find_hd_filter:
  "List.find P xs = (if filter P xs = [] then None else Some (hd (filter P xs)))"
  by (induction xs) auto


lemma update_org_choice:
  "sent_orgs s \<noteq> [] \<Longrightarrow>
     update_org cur s =
       Some (case List.find (\<lambda>org. \<exists>k \<in> set known_names. sublist k org) (sent_orgs s) of
               Some org \<Rightarrow> org | None \<Rightarrow> hd (sent_orgs s))"
  by (simp add: update_org_def known_orgs_def list_ex_iff contains_sublist find_hd_filter)

text \<open>
  Claim C5. Reading one more sentence \<open>s\<close> that mentions an organisation sets the
  active organisation to the first mention containing an allow-list name, or to
  the first mention when none does, whatever was active before; a sentence \<open>s'\<close>
  without organisation leaves it as it was. Leading sentences \<open>pre\<close> without any
  organisation change neither the facts nor the state, so a text that never
  mentions an organisation yields the empty list.
\<close>

theorem active_organization_tracking:
  assumes "sent_orgs s \<noteq> []" and "sent_orgs s' = []" and "\<forall>x \<in> set pre. sent_orgs x = []"
  shows "org_after (ss @ [s]) =
           Some (case List.find (\<lambda>org. \<exists>k \<in> set known_names. sublist k org) (sent_orgs s) of
                   Some org \<Rightarrow> org | None \<Rightarrow> hd (sent_orgs s))
       \<and> org_after (ss @ [s']) = org_after ss
       \<and> linker_loop facts None (pre @ rest) = linker_loop facts None rest
       \<and> heuristic_contextual_linker (Some \<lparr>doc_sents = pre, doc_ents = es\<rparr>) = Inr []"
proof -
  have a: "org_after (ss @ [s]) =
           Some (case List.find (\<lambda>org. \<exists>k \<in> set known_names. sublist k org) (sent_orgs s) of
                   Some org \<Rightarrow> org | None \<Rightarrow> hd (sent_orgs s))"
    using assms(1) by (simp add: org_after_snoc update_org_choice)
  have b: "org_after (ss @ [s']) = org_after ss"
    using assms(2) by (simp add: org_after_snoc update_org_def)
  have c: "linker_loop facts None (pre @ rest) = linker_loop facts None rest"
    using assms(3) by (simp add: linker_loop_append no_orgs_loop)
  have d: "heuristic_contextual_linker (Some \<lparr>doc_sents = pre, doc_ents = es\<rparr>) = Inr []"
    using assms(3)
    by (simp add: heuristic_contextual_linker_def candidate_facts_def no_orgs_loop)
  from a b c d show ?thesis by blast
qed






lemma singleton_of_distinct: "distinct xs \<Longrightarrow> set xs = {x} \<Longrightarrow> xs = [x]"
  by (cases xs) (auto simp: subset_singleton_iff)

theorem linker_output_unique_first_occurrence_witness:
  "candidate_facts repeated_sents =
     [\<lparr>Company = ''Apple'', Metric = ''Revenue'', Value = ''$10 billion''\<rparr>,
      \<lparr>Company = ''Apple'', Metric = ''Revenue'', Value = ''$10 billion''\<rparr>]
   \<and> heuristic_contextual_linker (Some \<lparr>doc_sents = repeated_sents, doc_ents = []\<rparr>) =
       Inr [\<lparr>Company = ''Apple'', Metric = ''Revenue'', Value = ''$10 billion''\<rparr>]"
proof -
  let ?f = "\<lparr>Company = ''Apple'', Metric = ''Revenue'', Value = ''$10 billion''\<rparr>"
  let ?d = "\<lparr>doc_sents = repeated_sents, doc_ents = []\<rparr>"
  have c: "candidate_facts repeated_sents = [?f, ?f]" by code_simp
  obtain fs where fs: "heuristic_contextual_linker (Some ?d) = Inr fs"
      "distinct fs" "set fs = set (candidate_facts (doc_sents ?d))"
    using linker_output_unique_first_occurrence [of ?d] by blast
  from fs(3) c have "set fs = {?f}" by simp
  with fs(2) have "fs = [?f]" by (rule singleton_of_distinct)
  with fs(1) c show ?thesis by simp
qed

text \<open>
  Claim C7. On the two sentences of the example the linker returns the single fact
  (Microsoft, Revenue, $56.5 billion). That fact comes from the first sentence; the
  second adds no candidate, and Microsoft is the active organisation after the
  first sentence and still after the second.
\<close>

theorem spec_example_microsoft:
  "heuristic_contextual_linker (Some \<lparr>doc_sents = microsoft_sents, doc_ents = []\<rparr>) =
     Inr [\<lparr>Company = ''Microsoft'', Metric = ''Revenue'', Value = ''$56.5 billion''\<rparr>]
   \<and> candidate_facts (take 1 microsoft_sents) =
       [\<lparr>Company = ''Microsoft'', Metric = ''Revenue'', Value = ''$56.5 billion''\<rparr>]
   \<and> candidate_facts microsoft_sents = candidate_facts (take 1 microsoft_sents)
   \<and> org_after (take 1 microsoft_sents) = Some ''Microsoft''
   \<and> org_after microsoft_sents = Some ''Microsoft''"
  by code_simp

text \<open>
  Claim C4, evaluated where it fails. In ``Apple revenue was $5 today.'' the
  pattern matches the three characters ``$5 ''; the test of line 110 reads the
  length of the match before it is trimmed, so the fact is appended, and its
  value ``$5'' has two characters.
\<close>

theorem small_amount_emitted:
  "findall amount_pattern (sent_text small_amount_sent) = [''$5 '']
   \<and> heuristic_contextual_linker (Some \<lparr>doc_sents = [small_amount_sent], doc_ents = []\<rparr>) =
       Inr [\<lparr>Company = ''Apple'', Metric = ''Revenue'', Value = ''$5''\<rparr>]
   \<and> length (strip ''$5 '') = 2"
  by code_simp

text \<open>
  Claim C8, evaluated where it fails. Two mentions that differ only in a line break
  against a space are counted as two strings; the line break is replaced after
  the counting, so the list of the category holds the same string twice.
\<close>

theorem line_break_mentions_duplicated:
  "entities_stage (Some line_break_doc) =
     [(''ORG'', [''GS Inc'', ''GS Inc'']), (''PERSON'', []), (''GPE'', [])]"
  by code_simp

theorem active_organization_tracking_witness:
  "sent_orgs two_org_sent = [''Acme Corp'', ''Apple Inc'']
   \<and> sent_orgs no_org_sent = []
   \<and> org_after microsoft_sents = Some ''Microsoft''
   \<and> org_after (microsoft_sents @ [two_org_sent]) = Some ''Apple Inc''
   \<and> org_after (microsoft_sents @ [no_org_sent]) = Some ''Microsoft''
   \<and> linker_loop [] None ([no_org_sent] @ microsoft_sents) = linker_loop [] None microsoft_sents
   \<and> heuristic_contextual_linker (Some \<lparr>doc_sents = [no_org_sent], doc_ents = []\<rparr>) = Inr []"
proof -
  have o: "sent_orgs two_org_sent = [''Acme Corp'', ''Apple Inc'']" by code_simp
  then have h1: "sent_orgs two_org_sent \<noteq> []" by simp
  have h2: "sent_orgs no_org_sent = []" by code_simp
  then have h3: "\<forall>x \<in> set [no_org_sent]. sent_orgs x = []" by simp
  have f: "List.find (\<lambda>org. \<exists>k \<in> set known_names. sublist k org) [''Acme Corp'', ''Apple Inc'']
             = Some ''Apple Inc''"
    unfolding contains_sublist [symmetric] by code_simp
  have m: "org_after microsoft_sents = Some ''Microsoft''" by code_simp
  from active_organization_tracking
         [OF h1 h2 h3, where ss = microsoft_sents and facts = "[]" and rest = microsoft_sents
            and es = "[]"]
       o h2 f m
  show ?thesis by simp
qed


section \<open>The orchestrator and its stages\<close>

lemma split_from_tokens:
  "\<forall>c \<in> set cur. \<not> isspace c \<Longrightarrow> tok \<in> set (split_from cur s) \<Longrightarrow>
     tok \<noteq> [] \<and> (\<forall>c \<in> set tok. \<not> isspace c)"
proof (induction s arbitrary: cur)
  case Nil
  then show ?case by (cases "cur = []") auto
next
  case (Cons c cs)
  show ?case
  proof (cases "isspace c")
    case True
    show ?thesis
    proof (cases "cur = []")
      case True
      with \<open>isspace c\<close> Cons.prems(2) have "tok \<in> set (split_from [] cs)" by simp
      then show ?thesis using Cons.IH [of "[]"] by simp
    next
      case False
      with \<open>isspace c\<close> Cons.prems(2) have "tok = rev cur \<or> tok \<in> set (split_from [] cs)" by simp
      then show ?thesis
      proof
        assume "tok = rev cur"
        then show ?thesis using False Cons.prems(1) by simp
      next
        assume "tok \<in> set (split_from [] cs)"
        then show ?thesis using Cons.IH [of "[]"] by simp
      qed
    qed
  next
    case False
    with Cons.prems(2) have "tok \<in> set (split_from (c # cur) cs)" by simp
    moreover have "\<forall>x \<in> set (c # cur). \<not> isspace x" using False Cons.prems(1) by simp
    ultimately show ?thesis using Cons.IH [of "c # cur"] by blast
  qed
qed
lemma isspace_space: "isspace CHR '' ''"
  by (simp add: isspace_def)

lemma split_from_token:
  "\<forall>c \<in> set p. \<not> isspace c \<Longrightarrow> split_from cur (p @ rest) = split_from (rev p @ cur) rest"
  by (induction p arbitrary: cur) simp_all

lemma split_join:
  "\<forall>tok \<in> set ts. tok \<noteq> [] \<and> (\<forall>c \<in> set tok. \<not> isspace c) \<Longrightarrow> split_from [] (join '' '' ts) = ts"
proof (induction "'' ''" ts rule: join.induct)
  case 1
  show ?case by simp
next
  case (2 p)
  then show ?case using split_from_token [of p "[]" "[]"] by simp
next
  case (3 p q ps)
  then have "split_from [] (join '' '' (q # ps)) = q # ps" by simp
  moreover have "split_from [] (p @ '' '' @ join '' '' (q # ps)) =
                   split_from (rev p) ('' '' @ join '' '' (q # ps))"
    using 3(2) split_from_token [of p "[]"] by simp
  moreover have "p \<noteq> []" using 3(2) by simp
  ultimately show ?case by (simp add: isspace_space)
qed

lemma split_text_for_classification:
  "split (text_for_classification t) = take 200 (split t)"
proof -
  have "\<forall>tok \<in> set (split t). tok \<noteq> [] \<and> (\<forall>c \<in> set tok. \<not> isspace c)"
  proof
    fix tok
    assume "tok \<in> set (split t)"
    then have "tok \<in> set (split_from [] t)" by (simp add: split_def)
    moreover have "\<forall>c \<in> set ([] :: string). \<not> isspace c" by simp
    ultimately show "tok \<noteq> [] \<and> (\<forall>c \<in> set tok. \<not> isspace c)"
      by (rule split_from_tokens [rotated])
  qed
  then have "\<forall>tok \<in> set (take 200 (split t)). tok \<noteq> [] \<and> (\<forall>c \<in> set tok. \<not> isspace c)"
    by (meson in_set_takeD)
  then show ?thesis
    unfolding text_for_classification_def split_def [of "join _ _"] by (rule split_join)
qed


lemma run_analysis_without_model:
  "\<not> guard text \<Longrightarrow> run_analysis None classifier text = Inl AttributeError"
  by (simp add: run_analysis_def parse_stage_def heuristic_contextual_linker_def Let_def)

text \<open>
  Claim C1, evaluated where it fails. With the sentence and entity model not loaded
  and a text of 150 characters, the guard lets the text through and the call of the
  linker on \<open>None\<close> raises: \<open>run_analysis\<close> returns no report, whatever the classifier.
\<close>

theorem run_analysis_raises_without_model:
  "run_analysis None classifier (Some (replicate 150 CHR ''a'')) = Inl AttributeError"
proof -
  have "\<not> guard (Some (replicate 150 CHR ''a''))" by code_simp
  then show ?thesis by (rule run_analysis_without_model)
qed

lemma guard_iff:
  "guard text \<longleftrightarrow> text = None \<or> (\<exists>t. text = Some t \<and> (prefix ''Error:'' t \<or> length t < 150))"
  by (cases "text") (auto simp: guard_def startswith_def)

text \<open>
  Claim C2, as amended. For a text that is absent, starts with the sentinel
  \<open>Error:\<close> or has fewer than 150 characters, \<open>run_analysis\<close> returns, whatever the
  models are, the report with summary ``N/A - Could not process article text.'',
  an entity dictionary without any key, category ``N/A'', no fact, and as excerpt
  the first 500 characters followed by ``...'' (``N/A'' for an absent or empty text).
\<close>

theorem guard_returns_degraded_report:
  assumes "text = None \<or> (\<exists>t. text = Some t \<and> (prefix ''Error:'' t \<or> length t < 150))"
  shows "run_analysis nlp classifier text =
           Inr \<lparr>summary = ''N/A - Could not process article text.'',
                entities = [],
                article_type = ''N/A'',
                financial_facts = [],
                raw_text = Some (case text of
                                   None \<Rightarrow> ''N/A''
                                 | Some t \<Rightarrow> if t = [] then ''N/A'' else take 500 t @ ''...'')\<rparr>"
proof -
  have "guard text" using assms by (simp add: guard_iff)
  then show ?thesis
    by (cases "text") (simp_all add: run_analysis_def)
qed

theorem guard_returns_degraded_report_witness:
  "prefix ''Error:'' ''Error: Could not retrieve article.''
   \<and> run_analysis (Some failing_model) failing_classifier (Some ''Error: Could not retrieve article.'') =
       Inr \<lparr>summary = ''N/A - Could not process article text.'',
            entities = [],
            article_type = ''N/A'',
            financial_facts = [],
            raw_text = Some ''Error: Could not retrieve article....''\<rparr>"
proof -
  have h: "prefix ''Error:'' ''Error: Could not retrieve article.''" by code_simp
  then have "Some ''Error: Could not retrieve article.'' = None \<or>
      (\<exists>t. Some ''Error: Could not retrieve article.'' = Some t \<and> (prefix ''Error:'' t \<or> length t < 150))"
    by blast
  from guard_returns_degraded_report [OF this, of "Some failing_model" failing_classifier]
  show ?thesis using h by simp
qed

theorem guard_report_counterexample:
  "run_analysis None failing_classifier (Some ''too short'') =
     Inr \<lparr>summary = ''N/A - Could not process article text.'',
          entities = [],
          article_type = ''N/A'',
          financial_facts = [],
          raw_text = Some ''too short...''\<rparr>
   \<and> summary (projr (run_analysis None failing_classifier (Some ''too short''))) \<noteq> ''N/A''
   \<and> map_of (entities (projr (run_analysis None failing_classifier (Some ''too short'')))) ''ORG'' = None
   \<and> raw_text (projr (run_analysis None failing_classifier (Some ''too short''))) \<noteq> Some (take 500 ''too short'')"
  by (simp add: run_analysis_def guard_def)

text \<open>
  Claim C3, as amended. When the model is loaded and finds no sentence, the summary
  is the first 300 characters of the stripped text, cut at 40000, followed by
  ``...'': it ends in ``...'' and has at most 303 characters. When the model is not
  loaded, or raises, the summary is ``Could not generate summary.''.
\<close>

theorem summary_fallback:
  assumes "parse (take 40000 (strip t)) = Inr d" and "doc_sents d = []"
    and "parse' (take 40000 (strip t)) = Inl e"
  shows "summary_stage (Some parse) t = take 300 (take 40000 (strip t)) @ ''...''
       \<and> suffix ''...'' (summary_stage (Some parse) t)
       \<and> length (summary_stage (Some parse) t) \<le> 303
       \<and> summary_stage None t = ''Could not generate summary.''
       \<and> summary_stage (Some parse') t = ''Could not generate summary.''"
proof -
  have a: "summary_stage (Some parse) t = take 300 (take 40000 (strip t)) @ ''...''"
    using assms(1,2) by (simp add: summary_stage_def Let_def)
  have b: "suffix ''...'' (take 300 (take 40000 (strip t)) @ ''...'')"
    by (rule suffix_appendI) simp
  have c: "length (take 300 (take 40000 (strip t)) @ ''...'') \<le> 303"
    by simp
  have d: "summary_stage None t = ''Could not generate summary.''"
    by (simp add: summary_stage_def Let_def)
  have e: "summary_stage (Some parse') t = ''Could not generate summary.''"
    using assms(3) by (simp add: summary_stage_def Let_def)
  from a b c d e show ?thesis by simp
qed

theorem summary_fallback_witness:
  "no_sentence_model (take 40000 (strip ''  Hello world.  '')) = Inr \<lparr>doc_sents = [], doc_ents = []\<rparr>
   \<and> failing_model (take 40000 (strip ''  Hello world.  '')) = Inl ModelError
   \<and> summary_stage (Some no_sentence_model) ''  Hello world.  '' = ''Hello world....''
   \<and> summary_stage None ''  Hello world.  '' = ''Could not generate summary.''
   \<and> summary_stage (Some failing_model) ''  Hello world.  '' = ''Could not generate summary.''"
proof -
  let ?t = "''  Hello world.  ''"
  have h1: "no_sentence_model (take 40000 (strip ?t)) = Inr \<lparr>doc_sents = [], doc_ents = []\<rparr>"
    by (simp add: no_sentence_model_def)
  have h2: "doc_sents \<lparr>doc_sents = [], doc_ents = []\<rparr> = []" by simp
  have h3: "failing_model (take 40000 (strip ?t)) = Inl ModelError"
    by (simp add: failing_model_def)
  have s: "strip ?t = ''Hello world.''" by code_simp
  from summary_fallback [of no_sentence_model ?t "\<lparr>doc_sents = [], doc_ents = []\<rparr>"
         failing_model ModelError, OF h1 h2 h3] s h1 h3
  show ?thesis by simp
qed

theorem summary_without_model_counterexample:
  "summary_stage None ''  Hello world.  '' = ''Could not generate summary.''
   \<and> summary_stage None ''  Hello world.  '' \<noteq> take 300 (strip ''  Hello world.  '') @ ''...''
   \<and> \<not> suffix ''...'' (summary_stage None ''  Hello world.  '')"
proof -
  have a: "summary_stage None ''  Hello world.  '' = ''Could not generate summary.''"
    by (simp add: summary_stage_def Let_def)
  have s: "strip ''  Hello world.  '' = ''Hello world.''" by code_simp
  have b: "\<not> suffix ''...'' ''Could not generate summary.''"
    by (simp add: suffix_def append_eq_append_conv2 append_eq_Cons_conv)
  from a s b show ?thesis by simp
qed

text \<open>
  What the classification stage does guarantee. The sample given to the classifier
  consists of the first 200 whitespace-delimited words of the whole text, so of at
  most 200 words. When the classifier raises on it, for a text that passes the
  guard and a model that parses it, the report has the category
  ``Classification Failed'' and the summary, entities and facts of the other
  stages: it is the report any other classifier would have led to, with that one
  field replaced.
\<close>

theorem classification_failure_isolated:
  assumes "t \<noteq> []" and "\<not> prefix ''Error:'' t" and "150 \<le> length t"
    and "classifier (text_for_classification t) = Inl e"
    and "parse (take 50000 t) = Inr d"
  shows "split (text_for_classification t) = take 200 (split t)
       \<and> length (split (text_for_classification t)) \<le> 200
       \<and> run_analysis (Some parse) classifier (Some t) =
           Inr \<lparr>summary = summary_stage (Some parse) t,
                entities = entities_stage (Some d),
                article_type = ''Classification Failed'',
                financial_facts = drop_duplicates (candidate_facts (doc_sents d)),
                raw_text = None\<rparr>
       \<and> run_analysis (Some parse) classifier (Some t) =
           map_sum id (\<lambda>r. r\<lparr>article_type := ''Classification Failed''\<rparr>)
             (run_analysis (Some parse) classifier' (Some t))"
proof -
  have g: "\<not> guard (Some t)"
    using assms(1-3) by (simp add: guard_def startswith_def)
  have a: "split (text_for_classification t) = take 200 (split t)"
    by (rule split_text_for_classification)
  have b: "length (split (text_for_classification t)) \<le> 200"
    by (simp add: a)
  have p: "parse_stage (Some parse) t = Inr (Some d)"
    using assms(5) by (simp add: parse_stage_def)
  have c: "classify_stage classifier t = ''Classification Failed''"
    using assms(4) by (simp add: classify_stage_def)
  have r: "run_analysis (Some parse) clf (Some t) =
             Inr \<lparr>summary = summary_stage (Some parse) t,
                  entities = entities_stage (Some d),
                  article_type = classify_stage clf t,
                  financial_facts = drop_duplicates (candidate_facts (doc_sents d)),
                  raw_text = None\<rparr>" for clf
    using g p by (simp add: run_analysis_def Let_def linker_returns)
  from a b c r [of classifier] r [of classifier'] show ?thesis by simp
qed

theorem classification_failure_isolated_witness:
  "long_text \<noteq> [] \<and> \<not> prefix ''Error:'' long_text \<and> 150 \<le> length long_text
   \<and> length (split long_text) = 210
   \<and> length (split (text_for_classification long_text)) \<le> 200
   \<and> run_analysis (Some no_sentence_model) failing_classifier (Some long_text) =
       Inr \<lparr>summary = summary_stage (Some no_sentence_model) long_text,
            entities = [(''ORG'', []), (''PERSON'', []), (''GPE'', [])],
            article_type = ''Classification Failed'',
            financial_facts = [],
            raw_text = None\<rparr>
   \<and> run_analysis (Some no_sentence_model) business_classifier (Some long_text) =
       Inr \<lparr>summary = summary_stage (Some no_sentence_model) long_text,
            entities = [(''ORG'', []), (''PERSON'', []), (''GPE'', [])],
            article_type = ''Business'',
            financial_facts = [],
            raw_text = None\<rparr>"
proof -
  let ?d = "\<lparr>doc_sents = [], doc_ents = []\<rparr>"
  have h1: "long_text \<noteq> []" by code_simp
  have h2: "\<not> prefix ''Error:'' long_text" by code_simp
  have h3: "150 \<le> length long_text" by code_simp
  have h4: "failing_classifier (text_for_classification long_text) = Inl ModelError"
    by (simp add: failing_classifier_def)
  have h5: "no_sentence_model (take 50000 long_text) = Inr ?d"
    by (simp add: no_sentence_model_def)
  have n: "length (split long_text) = 210" by code_simp
  have en: "entities_stage (Some ?d) = [(''ORG'', []), (''PERSON'', []), (''GPE'', [])]"
    by code_simp
  have cf: "drop_duplicates (candidate_facts (doc_sents ?d)) = []" by code_simp
  have g: "\<not> guard (Some long_text)"
    using h1 h2 h3 by (simp add: guard_def startswith_def)
  have ok: "run_analysis (Some no_sentence_model) business_classifier (Some long_text) =
       Inr \<lparr>summary = summary_stage (Some no_sentence_model) long_text,
            entities = [(''ORG'', []), (''PERSON'', []), (''GPE'', [])],
            article_type = ''Business'',
            financial_facts = [],
            raw_text = None\<rparr>"
    using g h5 en cf
    by (simp add: run_analysis_def Let_def parse_stage_def classify_stage_def
          business_classifier_def linker_returns)
  from classification_failure_isolated
         [of long_text failing_classifier ModelError no_sentence_model ?d business_classifier,
          OF h1 h2 h3 h4 h5]
       h1 h2 h3 n en cf ok
  show ?thesis by simp
qed

text \<open>
  What the entity stage does guarantee: the three categories are always present,
  in the order written, and none lists more than five strings.
\<close>

lemma entities_stage_keys: "map fst (entities_stage d) = [''ORG'', ''PERSON'', ''GPE'']"
  by (cases d) (simp_all add: entities_stage_def)

lemma entities_stage_cap: "(label, items) \<in> set (entities_stage d) \<Longrightarrow> length items \<le> 5"
  by (cases d) (auto simp: entities_stage_def most_common_def split: if_splits)

text \<open>An exception of the model at line 155 leaves \<open>run_analysis\<close> as it was raised.\<close>

lemma run_analysis_parse_error:
  "\<not> guard (Some t) \<Longrightarrow> parse (take 50000 t) = Inl e \<Longrightarrow>
     run_analysis (Some parse) classifier (Some t) = Inl e"
  by (simp add: run_analysis_def parse_stage_def Let_def)

text \<open>
  Claim C9, evaluated where it fails. On a text of 210 words that passes the guard
  the classifier raises and the handler of line 173 catches it; yet with the
  sentence and entity model not loaded the call of the linker on \<open>None\<close> at line 177
  raises, and with a model that raises at line 155 that exception leaves the
  function: in neither case is there a report that could carry the category
  ``Classification Failed'' next to the fields of the other stages.
\<close>

theorem classification_failure_without_parse:
  "failing_classifier (text_for_classification long_text) = Inl ModelError
   \<and> run_analysis None failing_classifier (Some long_text) = Inl AttributeError
   \<and> run_analysis (Some failing_model) failing_classifier (Some long_text) = Inl ModelError"
proof -
  have g: "\<not> guard (Some long_text)" by code_simp
  have a: "failing_classifier (text_for_classification long_text) = Inl ModelError"
    by (simp add: failing_classifier_def)
  have b: "run_analysis None failing_classifier (Some long_text) = Inl AttributeError"
    using g by (rule run_analysis_without_model)
  have "failing_model (take 50000 long_text) = Inl ModelError"
    by (simp add: failing_model_def)
  with g have c: "run_analysis (Some failing_model) failing_classifier (Some long_text) = Inl ModelError"
    by (rule run_analysis_parse_error)
  from a b c show ?thesis by simp
qed

end
